theory Spec2Isabelle
  imports Complex_Main
begin

section \<open>JavaScript numbers\<close>

text \<open>
  A JavaScript \<^verbatim>\<open>number\<close> is an IEEE 754 double: a finite value (a rational), one of
  the two infinities, or NaN. The sign of zero is not represented: no operation of the
  modelled code tells \<^verbatim>\<open>+0\<close> from \<^verbatim>\<open>-0\<close>.
\<close>

datatype number = Fin rat | PInf | NInf | NaN

text \<open>The number of binary digits of a positive integer.\<close>

function bit_length :: "int \<Rightarrow> int" where
  "bit_length n = (if n \<le> 0 then 0 else 1 + bit_length (n div 2))"
  by pat_completeness auto
termination
  by (relation "measure nat") auto

declare bit_length.simps [simp del]

definition pow2 :: "int \<Rightarrow> rat" where
  "pow2 k = (if 0 \<le> k then 2 ^ nat k else 1 / 2 ^ nat (- k))"

text \<open>The binary exponent of a positive rational \<open>q\<close>: the \<open>e\<close> with \<open>2\<^sup>e \<le> q < 2\<^sup>e\<^sup>+\<^sup>1\<close>.\<close>

definition ilog2 :: "rat \<Rightarrow> int" where
  "ilog2 q = (if 1 \<le> q then bit_length \<lfloor>q\<rfloor> - 1 else - bit_length (\<lceil>1 / q\<rceil> - 1))"

definition round_half_even :: "rat \<Rightarrow> int" where
  "round_half_even q =
     (let n = \<lfloor>q\<rfloor>; r = q - of_int n
      in if r < 1 / 2 then n else if 1 / 2 < r then n + 1 else if even n then n else n + 1)"

text \<open>
  The double nearest to an exact value, ties to the even significand: 53 significant
  bits, exponents from \<open>-1022\<close> (below it the spacing stays \<open>2\<^sup>-\<^sup>1\<^sup>0\<^sup>7\<^sup>4\<close>), and
  infinity from \<open>2\<^sup>1\<^sup>0\<^sup>2\<^sup>4\<close> on. Every arithmetic operation returns the double
  nearest to its exact result, and a numeric literal denotes the double nearest to
  its decimal value.
\<close>

definition to_double :: "rat \<Rightarrow> number" where
  "to_double q =
     (if q = 0 then Fin 0
      else let e = max (ilog2 \<bar>q\<bar>) (- 1022);
               ulp = pow2 (e - 52);
               r = of_int (round_half_even (q / ulp)) * ulp
           in if 2 ^ 1024 \<le> r then PInf else if r \<le> - (2 ^ 1024) then NInf else Fin r)"

fun fadd :: "number \<Rightarrow> number \<Rightarrow> number" where
  "fadd (Fin a) (Fin b) = to_double (a + b)"
| "fadd NaN y = NaN"
| "fadd x NaN = NaN"
| "fadd PInf NInf = NaN"
| "fadd NInf PInf = NaN"
| "fadd PInf y = PInf"
| "fadd x PInf = PInf"
| "fadd NInf y = NInf"
| "fadd x NInf = NInf"

fun fmul :: "number \<Rightarrow> number \<Rightarrow> number" where
  "fmul (Fin a) (Fin b) = to_double (a * b)"
| "fmul NaN y = NaN"
| "fmul x NaN = NaN"
| "fmul (Fin a) PInf = (if a = 0 then NaN else if 0 < a then PInf else NInf)"
| "fmul (Fin a) NInf = (if a = 0 then NaN else if 0 < a then NInf else PInf)"
| "fmul PInf (Fin b) = (if b = 0 then NaN else if 0 < b then PInf else NInf)"
| "fmul NInf (Fin b) = (if b = 0 then NaN else if 0 < b then NInf else PInf)"
| "fmul PInf PInf = PInf"
| "fmul NInf NInf = PInf"
| "fmul PInf NInf = NInf"
| "fmul NInf PInf = NInf"

text \<open>Division; a zero divisor is taken as \<^verbatim>\<open>+0\<close> (the modelled code divides by 20 only).\<close>

fun fdiv :: "number \<Rightarrow> number \<Rightarrow> number" where
  "fdiv (Fin a) (Fin b) =
     (if b = 0 then (if a = 0 then NaN else if 0 < a then PInf else NInf)
      else to_double (a / b))"
| "fdiv NaN y = NaN"
| "fdiv x NaN = NaN"
| "fdiv (Fin a) y = Fin 0"
| "fdiv PInf (Fin b) = (if 0 \<le> b then PInf else NInf)"
| "fdiv NInf (Fin b) = (if 0 \<le> b then NInf else PInf)"
| "fdiv x y = NaN"

fun Math_max :: "number \<Rightarrow> number \<Rightarrow> number" where
  "Math_max (Fin a) (Fin b) = Fin (max a b)"
| "Math_max NaN y = NaN"
| "Math_max x NaN = NaN"
| "Math_max PInf y = PInf"
| "Math_max x PInf = PInf"
| "Math_max NInf y = y"
| "Math_max x NInf = x"

fun Math_min :: "number \<Rightarrow> number \<Rightarrow> number" where
  "Math_min (Fin a) (Fin b) = Fin (min a b)"
| "Math_min NaN y = NaN"
| "Math_min x NaN = NaN"
| "Math_min NInf y = NInf"
| "Math_min x NInf = NInf"
| "Math_min PInf y = y"
| "Math_min x PInf = x"

text \<open>\<^verbatim>\<open>Math.round\<close>: the nearest integer, a tie going up.\<close>

fun Math_round :: "number \<Rightarrow> number" where
  "Math_round (Fin a) = Fin (of_int \<lfloor>a + 1 / 2\<rfloor>)"
| "Math_round x = x"

text \<open>
  The text of a number, by what it denotes: \<open>Digits v\<close> is a decimal numeral of exact
  value \<open>v\<close>, \<open>Repr d\<close> the text \<^verbatim>\<open>String(d)\<close> of a finite double \<open>d\<close>, which reads
  back as \<open>d\<close>.
\<close>

datatype numeric_string = StrNaN | StrInfinity | StrNegInfinity | Digits rat | Repr rat

text \<open>
  \<^verbatim>\<open>x.toFixed(2)\<close>: for \<open>\<bar>x\<bar> < 10\<^sup>2\<^sup>1\<close> the digits of \<open>n / 100\<close>, where \<open>n\<close> is the
  integer for which \<open>n / 100 - \<bar>x\<bar>\<close> is as close to zero as possible, the larger one
  if there are two; the sign is put in front.
\<close>

definition toFixed2 :: "number \<Rightarrow> numeric_string" where
  "toFixed2 x =
     (case x of
        NaN \<Rightarrow> StrNaN
      | PInf \<Rightarrow> StrInfinity
      | NInf \<Rightarrow> StrNegInfinity
      | Fin q \<Rightarrow>
          if 10 ^ 21 \<le> \<bar>q\<bar> then Repr q
          else let scaled = \<bar>q\<bar> * 100;
                   n = (if scaled - of_int \<lfloor>scaled\<rfloor> < 1 / 2 then \<lfloor>scaled\<rfloor> else \<lfloor>scaled\<rfloor> + 1)
               in Digits (sgn q * of_int n / 100))"

fun parseFloat :: "numeric_string \<Rightarrow> number" where
  "parseFloat StrNaN = NaN"
| "parseFloat StrInfinity = PInf"
| "parseFloat StrNegInfinity = NInf"
| "parseFloat (Digits v) = to_double v"
| "parseFloat (Repr d) = Fin d"

section \<open>The query progress store (\<^verbatim>\<open>query-progress-store\<close>)\<close>

datatype QueryStepStatus = idle | active | completed | error

text \<open>
  An optional field is an \<open>option\<close>: \<open>None\<close> is \<^verbatim>\<open>undefined\<close>. The values of
  the \<^verbatim>\<open>metadata\<close> bag have type \<^verbatim>\<open>unknown\<close> and stay a type parameter. Timestamps
  are the integers \<^verbatim>\<open>Date.now()\<close> returns.
\<close>

record 'v QueryProgressStep =
  id' :: string
  label :: string
  detail :: "string option"
  status :: QueryStepStatus
  startedAt :: "int option"
  completedAt :: "int option"
  metadata :: "(string \<rightharpoonup> 'v) option"

record 'v QueryProgressState =
  steps :: "'v QueryProgressStep list"
  estimatedSeconds :: "number option"

text \<open>The state the store is created with.\<close>

definition useQueryProgressStore :: "'v QueryProgressState" where
  "useQueryProgressStore = \<lparr>steps = [], estimatedSeconds = None\<rparr>"

text \<open>
  \<^verbatim>\<open>initialize\<close> receives \<^verbatim>\<open>{id, label}\<close> objects, here pairs. Every action passes
  a partial state to \<^verbatim>\<open>set\<close>, which merges it into the current state; the actions that
  call \<^verbatim>\<open>Date.now()\<close> take the clock reading as the argument \<open>now\<close>.
\<close>

definition initialize ::
  "(string \<times> string) list \<Rightarrow> 'v QueryProgressState \<Rightarrow> 'v QueryProgressState" where
  "initialize new_steps state =
     state\<lparr>steps := map (\<lambda>step. \<lparr>id' = fst step, label = snd step, detail = None,
                                   status = idle, startedAt = None, completedAt = None,
                                   metadata = None\<rparr>) new_steps,
           estimatedSeconds := None\<rparr>"

definition startStep ::
  "string \<Rightarrow> string option \<Rightarrow> int \<Rightarrow> 'v QueryProgressState \<Rightarrow> 'v QueryProgressState" where
  "startStep i new_detail now state =
     state\<lparr>steps := map (\<lambda>step. if id' step = i
                                then step\<lparr>detail := new_detail, status := active,
                                          startedAt := Some now, completedAt := None\<rparr>
                                else step) (steps state)\<rparr>"

text \<open>Spreading \<^verbatim>\<open>undefined\<close> into an object literal adds no key.\<close>

definition spread :: "(string \<rightharpoonup> 'v) option \<Rightarrow> (string \<rightharpoonup> 'v)" where
  "spread obj = (case obj of None \<Rightarrow> Map.empty | Some m \<Rightarrow> m)"

definition completeStep ::
  "string \<Rightarrow> (string \<rightharpoonup> 'v) option \<Rightarrow> int \<Rightarrow> 'v QueryProgressState \<Rightarrow> 'v QueryProgressState" where
  "completeStep i new_metadata now state =
     state\<lparr>steps := map (\<lambda>step. if id' step = i
                                then step\<lparr>status := completed, completedAt := Some now,
                                          metadata := Some (spread (metadata step) ++ spread new_metadata)\<rparr>
                                else step) (steps state)\<rparr>"

definition failStep ::
  "string \<Rightarrow> string option \<Rightarrow> int \<Rightarrow> 'v QueryProgressState \<Rightarrow> 'v QueryProgressState" where
  "failStep i message now state =
     state\<lparr>steps := map (\<lambda>step. if id' step = i
                                then step\<lparr>status := error,
                                          detail := (case message of Some m \<Rightarrow> Some m | None \<Rightarrow> detail step),
                                          completedAt := Some now\<rparr>
                                else step) (steps state)\<rparr>"

definition setEstimatedTime :: "number \<Rightarrow> 'v QueryProgressState \<Rightarrow> 'v QueryProgressState" where
  "setEstimatedTime seconds state = state\<lparr>estimatedSeconds := Some seconds\<rparr>"

definition reset :: "'v QueryProgressState \<Rightarrow> 'v QueryProgressState" where
  "reset state = state\<lparr>steps := [], estimatedSeconds := None\<rparr>"

section \<open>The progress event consumer (\<^verbatim>\<open>ProgressTracker\<close>)\<close>

text \<open>
  A payload is an estimate event or a step event. The status of a step event arrives as
  text parsed from JSON, so it stays a string and the \<^verbatim>\<open>switch\<close> keeps its
  \<^verbatim>\<open>default\<close> branch.
\<close>

datatype 'v ProgressEventPayload =
    EstimateEvent number
  | StepEvent string string "string option" "(string \<rightharpoonup> 'v) option"

text \<open>
  The store call an event is translated into, with its arguments, and the call's effect
  on the store.
\<close>

datatype 'v StoreCall =
    SetEstimatedTime number
  | StartStep string "string option"
  | CompleteStep string "(string \<rightharpoonup> 'v) option"
  | FailStep string "string option"
  | NoCall

fun dispatch :: "'v ProgressEventPayload \<Rightarrow> 'v StoreCall" where
  "dispatch (EstimateEvent seconds) = SetEstimatedTime seconds"
| "dispatch (StepEvent stepId st det md) =
     (if st = ''active'' then StartStep stepId det
      else if st = ''completed'' then CompleteStep stepId md
      else if st = ''error'' then FailStep stepId (Some (case det of Some d \<Rightarrow> d | None \<Rightarrow> ''Step failed''))
      else NoCall)"

fun perform :: "'v StoreCall \<Rightarrow> int \<Rightarrow> 'v QueryProgressState \<Rightarrow> 'v QueryProgressState" where
  "perform (SetEstimatedTime seconds) now state = setEstimatedTime seconds state"
| "perform (StartStep i det) now state = startStep i det now state"
| "perform (CompleteStep i md) now state = completeStep i md now state"
| "perform (FailStep i msg) now state = failStep i msg now state"
| "perform NoCall now state = state"

definition handleProgressEvent ::
  "int \<Rightarrow> 'v ProgressEventPayload \<Rightarrow> 'v QueryProgressState \<Rightarrow> 'v QueryProgressState" where
  "handleProgressEvent now payload state = perform (dispatch payload) now state"

text \<open>Events are handled one at a time, in the order received, each at its own clock reading.\<close>

fun handleAll ::
  "(int \<times> 'v ProgressEventPayload) list \<Rightarrow> 'v QueryProgressState \<Rightarrow> 'v QueryProgressState" where
  "handleAll [] state = state"
| "handleAll (e # es) state = handleAll es (handleProgressEvent (fst e) (snd e) state)"

section \<open>The query configuration store (\<^verbatim>\<open>query-store\<close>)\<close>

datatype SearchDepth = quick | standard | deep

record QueryOptions =
  searchDepth :: SearchDepth
  maxResults :: number
  dateFrom :: "string option"
  dateTo :: "string option"
  openAccessOnly :: bool

text \<open>
  A \<^verbatim>\<open>Partial<QueryOptions>\<close> names some of the fields: \<open>None\<close> is a field the object
  does not name, \<open>Some v\<close> a field it gives the value \<open>v\<close>. An optional field can be
  named with the value \<^verbatim>\<open>undefined\<close>, which is \<open>Some None\<close>.
\<close>

record PartialQueryOptions =
  searchDepth_opt :: "SearchDepth option"
  maxResults_opt :: "number option"
  dateFrom_opt :: "string option option"
  dateTo_opt :: "string option option"
  openAccessOnly_opt :: "bool option"

record QueryStoreState =
  query :: string
  sources :: "string list"
  llms :: "string list"
  options :: QueryOptions

definition DEFAULT_STATE :: QueryStoreState where
  "DEFAULT_STATE =
     \<lparr>query = '''', sources = [''openalex'', ''pubmed''], llms = [''claude''],
      options = \<lparr>searchDepth = standard, maxResults = Fin 20, dateFrom = None, dateTo = None,
                 openAccessOnly = False\<rparr>\<rparr>"

definition toggleSource :: "string \<Rightarrow> QueryStoreState \<Rightarrow> QueryStoreState" where
  "toggleSource source state =
     state\<lparr>sources := (if source \<in> set (sources state)
                        then filter (\<lambda>s. s \<noteq> source) (sources state)
                        else sources state @ [source])\<rparr>"

definition toggleLLM :: "string \<Rightarrow> QueryStoreState \<Rightarrow> QueryStoreState" where
  "toggleLLM llm state =
     state\<lparr>llms := (if llm \<in> set (llms state)
                     then filter (\<lambda>l. l \<noteq> llm) (llms state)
                     else llms state @ [llm])\<rparr>"

text \<open>The object spread \<^verbatim>\<open>{...a, ...b}\<close>, field by field: a field \<open>b\<close> names wins.\<close>

definition override :: "'a \<Rightarrow> 'a option \<Rightarrow> 'a" where
  "override old new = (case new of None \<Rightarrow> old | Some v \<Rightarrow> v)"

definition setOptions :: "PartialQueryOptions \<Rightarrow> QueryStoreState \<Rightarrow> QueryStoreState" where
  "setOptions opts state =
     state\<lparr>options :=
       \<lparr>searchDepth = override (searchDepth (options state)) (searchDepth_opt opts),
        maxResults = override (maxResults (options state)) (maxResults_opt opts),
        dateFrom = override (dateFrom (options state)) (dateFrom_opt opts),
        dateTo = override (dateTo (options state)) (dateTo_opt opts),
        openAccessOnly = override (openAccessOnly (options state)) (openAccessOnly_opt opts)\<rparr>\<rparr>"

section \<open>The cost and duration estimator (\<^verbatim>\<open>cost-calculator\<close>)\<close>

record CostConfig =
  cfg_sources :: "string list"
  cfg_llms :: "string list"
  cfg_depth :: SearchDepth
  cfg_maxResults :: "number option"

definition SOURCE_BASE_COST :: "string \<rightharpoonup> number" where
  "SOURCE_BASE_COST =
     [''openalex'' \<mapsto> to_double 0.15,
      ''google-patents'' \<mapsto> to_double 0.25,
      ''pubmed'' \<mapsto> to_double 0.1,
      ''document-vault'' \<mapsto> to_double 0.05]"

definition LLM_BASE_COST :: "string \<rightharpoonup> number" where
  "LLM_BASE_COST =
     [''claude'' \<mapsto> to_double 1.8,
      ''gpt4'' \<mapsto> to_double 3.2,
      ''gemini'' \<mapsto> to_double 1.2,
      ''ollama'' \<mapsto> to_double 0]"

fun DEPTH_MULTIPLIER :: "SearchDepth \<Rightarrow> number" where
  "DEPTH_MULTIPLIER quick = to_double 0.5"
| "DEPTH_MULTIPLIER standard = to_double 1"
| "DEPTH_MULTIPLIER deep = to_double 2.6"

definition MINIMUM_COST :: number where
  "MINIMUM_COST = to_double 0.5"

text \<open>
  The two cost tables are object literals indexed by arbitrary strings. The lookup
  \<^verbatim>\<open>table[key]\<close> finds the entries the literal lists and, for any other key, the
  members every object inherits from \<^verbatim>\<open>Object.prototype\<close>: functions (for
  \<^verbatim>\<open>__proto__\<close>, the prototype object), never numbers. For every other key it gives
  \<^verbatim>\<open>undefined\<close>, which is \<open>None\<close>.
\<close>

definition Object_prototype :: "string list" where
  "Object_prototype =
     [''constructor'', ''hasOwnProperty'', ''isPrototypeOf'', ''propertyIsEnumerable'',
      ''toLocaleString'', ''toString'', ''valueOf'', ''__proto__'', ''__defineGetter__'',
      ''__defineSetter__'', ''__lookupGetter__'', ''__lookupSetter__'']"

text \<open>
  A value met while the costs are summed: a number, or something that is not one (an
  inherited function or object, or a string holding its text).
\<close>

datatype js_value = Num number | NonNumeric

definition get_property :: "(string \<rightharpoonup> number) \<Rightarrow> string \<Rightarrow> js_value option" where
  "get_property table key =
     (case table key of
        Some c \<Rightarrow> Some (Num c)
      | None \<Rightarrow> if key \<in> set Object_prototype then Some NonNumeric else None)"

text \<open>
  \<^verbatim>\<open>a + b\<close> adds two numbers; with a function, an object or a string on either side
  it concatenates their texts, and the result holds the text of that function or
  object. Such a string is not the text of a number: \<^verbatim>\<open>*\<close> converts it to NaN.
\<close>

fun js_add :: "js_value \<Rightarrow> js_value \<Rightarrow> js_value" where
  "js_add (Num a) (Num b) = Num (fadd a b)"
| "js_add x y = NonNumeric"

fun ToNumber :: "js_value \<Rightarrow> number" where
  "ToNumber (Num a) = a"
| "ToNumber NonNumeric = NaN"

text \<open>The local constant \<^verbatim>\<open>totalCost\<close> of \<^verbatim>\<open>calculateQueryCost\<close>.\<close>

definition totalCost :: "CostConfig \<Rightarrow> number" where
  "totalCost config =
     (let maxResults = (case cfg_maxResults config of None \<Rightarrow> to_double 20 | Some m \<Rightarrow> m);
          sourceCost = foldl (\<lambda>total source.
              js_add total (case get_property SOURCE_BASE_COST source of
                              Some v \<Rightarrow> v | None \<Rightarrow> Num (to_double 0.1)))
            (Num (to_double 0)) (cfg_sources config);
          llmCost = foldl (\<lambda>total llm.
              js_add total (case get_property LLM_BASE_COST llm of
                              Some v \<Rightarrow> v | None \<Rightarrow> Num (to_double 1)))
            (Num (to_double 0)) (cfg_llms config);
          resultsMultiplier = Math_max (to_double 1) (fdiv maxResults (to_double 20));
          depthMultiplier = DEPTH_MULTIPLIER (cfg_depth config)
      in fmul (fmul (ToNumber (js_add sourceCost llmCost)) depthMultiplier) resultsMultiplier)"

definition calculateQueryCost :: "CostConfig \<Rightarrow> number" where
  "calculateQueryCost config = parseFloat (toFixed2 (Math_max MINIMUM_COST (totalCost config)))"

definition estimateQueryDuration :: "SearchDepth \<Rightarrow> number \<Rightarrow> number \<Rightarrow> number" where
  "estimateQueryDuration depth sourcesCount llmCount =
     (let base = (if depth = quick then to_double 8
                  else if depth = standard then to_double 18 else to_double 45);
          sourceAdjustment = Math_min (to_double 12) (fmul sourcesCount (to_double 2.5));
          llmAdjustment = Math_min (to_double 10) (fmul llmCount (to_double 3))
      in Math_round (fadd (fadd base sourceAdjustment) llmAdjustment))"

section \<open>The estimator as the specification words it\<close>

text \<open>
  The sum of a list of numbers, taken from left to right, and the base cost of an
  identifier: its entry in the table, or the default when the table has none.
\<close>

definition number_sum :: "number list \<Rightarrow> number" where
  "number_sum xs = foldl fadd (to_double 0) xs"

definition base_cost :: "(string \<rightharpoonup> number) \<Rightarrow> number \<Rightarrow> string \<Rightarrow> number" where
  "base_cost table dflt key = (case table key of Some c \<Rightarrow> c | None \<Rightarrow> dflt)"

text \<open>
  Steps 1 to 5 of the cost: the two sums, the depth multiplier, the results
  multiplier \<open>max(1, maxResults / 20)\<close> and the floor of 0.5.
\<close>

definition spec_cost :: "string list \<Rightarrow> string list \<Rightarrow> SearchDepth \<Rightarrow> number \<Rightarrow> number" where
  "spec_cost srcs models depth max_results =
     Math_max (to_double 0.5)
       (fmul (fmul (fadd (number_sum (map (base_cost SOURCE_BASE_COST (to_double 0.1)) srcs))
                         (number_sum (map (base_cost LLM_BASE_COST (to_double 1)) models)))
                   (case depth of quick \<Rightarrow> to_double 0.5 | standard \<Rightarrow> to_double 1
                                | deep \<Rightarrow> to_double 2.6))
             (Math_max (to_double 1) (fdiv max_results (to_double 20))))"

text \<open>
  Half-up rounding at the cent boundary, and steps 5 and 6 of the cost in exact decimal
  arithmetic, from the base costs and the two multipliers.
\<close>

definition half_up_cents :: "rat \<Rightarrow> rat" where
  "half_up_cents x = of_int \<lfloor>x * 100 + 1 / 2\<rfloor> / 100"

definition decimal_cost :: "rat list \<Rightarrow> rat list \<Rightarrow> rat \<Rightarrow> rat \<Rightarrow> rat" where
  "decimal_cost source_costs llm_costs depth_multiplier results_multiplier =
     half_up_cents (max 0.5
       ((sum_list source_costs + sum_list llm_costs) * depth_multiplier * results_multiplier))"

text \<open>
  The duration for counts, in exact arithmetic: the base seconds of the depth plus the
  two capped adjustments, rounded to the nearest integer, a half going up.
\<close>

fun base_seconds :: "SearchDepth \<Rightarrow> rat" where
  "base_seconds quick = 8"
| "base_seconds standard = 18"
| "base_seconds deep = 45"

definition spec_duration :: "SearchDepth \<Rightarrow> nat \<Rightarrow> nat \<Rightarrow> int" where
  "spec_duration depth sourcesCount llmCount =
     \<lfloor>base_seconds depth + min 12 (of_nat sourcesCount * 2.5) + min 10 (of_nat llmCount * 3) + 1 / 2\<rfloor>"

section \<open>Evaluating the number model\<close>

text \<open>
  Floors and ceilings of rational numerals, and the unfolding rules under which the
  simplifier computes \<open>to_double\<close> at a numeral; the doubles of some literals.
\<close>

lemma floor_numeral_divide_rat [simp]:
  "\<lfloor>numeral a / numeral b :: rat\<rfloor> = numeral a div numeral b"
  by (metis floor_divide_of_int_eq of_int_numeral)

lemma floor_neg_numeral_divide_rat [simp]:
  "\<lfloor>- (numeral a / numeral b) :: rat\<rfloor> = - numeral a div numeral b"
  by (metis divide_minus_left floor_divide_of_int_eq of_int_neg_numeral of_int_numeral)

lemma floor_one_divide_rat [simp]:
  "\<lfloor>1 / numeral b :: rat\<rfloor> = 1 div numeral b"
  by (metis floor_divide_of_int_eq of_int_1 of_int_numeral)

lemma ceiling_numeral_divide_rat [simp]:
  "\<lceil>numeral a / numeral b :: rat\<rceil> = - (- numeral a div numeral b)"
  by (metis ceiling_def divide_minus_left floor_divide_of_int_eq of_int_neg_numeral of_int_numeral)

lemmas eval_double = to_double_def ilog2_def bit_length.simps pow2_def round_half_even_def Let_def

lemma lit_0: "to_double 0 = Fin 0"
  by (simp add: to_double_def)
lemma lit_1: "to_double 1 = Fin 1"
  by (simp add: eval_double)
lemma lit_20: "to_double 20 = Fin 20"
  by (simp add: eval_double)
lemma lit_0_5: "to_double 0.5 = Fin (1 / 2)"
  by (simp add: eval_double)
lemma lit_0_1: "to_double 0.1 = Fin (3602879701896397 / 36028797018963968)"
  by (simp add: eval_double)
lemma lit_0_15: "to_double 0.15 = Fin (5404319552844595 / 36028797018963968)"
  by (simp add: eval_double)
lemma lit_1_8: "to_double 1.8 = Fin (8106479329266893 / 4503599627370496)"
  by (simp add: eval_double)
lemma lit_2_6: "to_double 2.6 = Fin (5854679515581645 / 2251799813685248)"
  by (simp add: eval_double)

lemma lit_8: "to_double 8 = Fin 8"
  by (simp add: eval_double)
lemma lit_18: "to_double 18 = Fin 18"
  by (simp add: eval_double)
lemma lit_45: "to_double 45 = Fin 45"
  by (simp add: eval_double)
lemma lit_12: "to_double 12 = Fin 12"
  by (simp add: eval_double)
lemma lit_10: "to_double 10 = Fin 10"
  by (simp add: eval_double)
lemma lit_3: "to_double 3 = Fin 3"
  by (simp add: eval_double)
lemma lit_2_5: "to_double (5 / 2) = Fin (5 / 2)"
  by (simp add: eval_double)
lemma lit_half: "to_double (1 / 2) = Fin (1 / 2)"
  by (simp add: eval_double)

section \<open>The number model rounds to the nearest double\<close>

text \<open>
  \<open>ilog2\<close> is the binary exponent; \<open>to_double\<close> leaves a value with a 53-bit
  significand unchanged, moves any other value by at most half the spacing of the
  doubles around it, and returns a value it leaves unchanged.
\<close>

lemma bit_length_nonpos: "n \<le> 0 \<Longrightarrow> bit_length n = 0"
  by (simp add: bit_length.simps)

lemma bit_length_pos: "0 < n \<Longrightarrow> bit_length n = 1 + bit_length (n div 2)"
  by (subst bit_length.simps) simp

lemma bit_length_ge0: "0 \<le> bit_length n"
proof (induction n rule: bit_length.induct)
  case (1 n)
  then show ?case by (cases "n \<le> 0") (simp_all add: bit_length_nonpos bit_length_pos)
qed

lemma bit_length_bounds:
  "0 < n \<Longrightarrow> 2 ^ nat (bit_length n - 1) \<le> n \<and> n < 2 ^ nat (bit_length n)"
proof (induction n rule: bit_length.induct)
  case (1 n)
  show ?case
  proof (cases "n div 2 = 0")
    case True
    with "1.prems" have "n = 1" by presburger
    then show ?thesis by (simp add: bit_length_pos bit_length_nonpos)
  next
    case False
    with "1.prems" have pos: "0 < n div 2" by presburger
    define b where "b = bit_length (n div 2)"
    from "1.IH" "1.prems" pos have ih: "2 ^ nat (b - 1) \<le> n div 2" "n div 2 < 2 ^ nat b"
      by (simp_all add: b_def)
    have b1: "1 \<le> b"
      using bit_length_pos [OF pos] bit_length_ge0 [of "n div 2 div 2"] by (simp add: b_def)
    have eq: "bit_length n = 1 + b"
      using bit_length_pos [OF "1.prems"] by (simp add: b_def)
    have p1: "(2::int) ^ nat b = 2 * 2 ^ nat (b - 1)"
      using b1 by (metis Suc_nat_eq_nat_zadd1 add.commute diff_add_cancel diff_ge_0_iff_ge power_Suc)
    have p2: "(2::int) ^ nat (1 + b) = 2 * 2 ^ nat b"
      using b1 by (simp add: nat_add_distrib)
    have "2 * (n div 2) \<le> n" "n < 2 * (n div 2) + 2" by presburger+
    with ih p1 p2 show ?thesis by (simp add: eq)
  qed
qed

lemma pow2_powi: "pow2 k = 2 powi k"
  by (simp add: pow2_def power_int_def field_simps)

lemma pow2_pos: "0 < pow2 k"
  by (simp add: pow2_def)

lemma pow2_less_iff: "pow2 a < pow2 b \<longleftrightarrow> a < b"
proof
  assume less: "pow2 a < pow2 b"
  show "a < b"
  proof (rule ccontr)
    assume "\<not> a < b"
    then have "pow2 b \<le> pow2 a"
      by (simp add: pow2_powi power_int_increasing)
    with less show False by simp
  qed
next
  assume "a < b"
  then show "pow2 a < pow2 b"
    by (simp add: pow2_powi power_int_strict_increasing)
qed

lemma pow2_le_iff: "pow2 a \<le> pow2 b \<longleftrightarrow> a \<le> b"
  using pow2_less_iff [of b a] by linarith

lemma pow2_add: "pow2 (a + b) = pow2 a * pow2 b"
  by (simp add: pow2_powi power_int_add)

lemma pow2_nat: "0 \<le> k \<Longrightarrow> pow2 k = of_int (2 ^ nat k)"
  by (simp add: pow2_def)

lemma of_int_pow2_le: "2 ^ k \<le> (n::int) \<Longrightarrow> (2::rat) ^ k \<le> of_int n"
  by simp

lemma of_int_less_pow2: "(n::int) < 2 ^ k \<Longrightarrow> (of_int n :: rat) + 1 \<le> 2 ^ k"
proof -
  assume "n < 2 ^ k"
  then have "n + 1 \<le> 2 ^ k" by simp
  then have "(of_int (n + 1) :: rat) \<le> of_int (2 ^ k)" by (simp only: of_int_le_iff)
  then show ?thesis by simp
qed

lemma ilog2_bounds:
  assumes "0 < q"
  shows "pow2 (ilog2 q) \<le> q \<and> q < pow2 (ilog2 q + 1)"
proof (cases "1 \<le> q")
  case True
  define n where "n = \<lfloor>q\<rfloor>"
  have n: "0 < n" "of_int n \<le> q" "q < of_int n + 1"
    using True by (simp_all add: n_def) linarith+
  have e: "ilog2 q = bit_length n - 1"
    using True by (simp add: ilog2_def n_def)
  have b1: "1 \<le> bit_length n"
    using bit_length_pos [OF n(1)] bit_length_ge0 [of "n div 2"] by simp
  have P1: "pow2 (ilog2 q) = 2 ^ nat (bit_length n - 1)"
    using b1 by (simp add: e pow2_def)
  have P2: "pow2 (ilog2 q + 1) = 2 ^ nat (bit_length n)"
    using b1 by (simp add: e pow2_def)
  from bit_length_bounds [OF n(1)]
  have L: "(2::rat) ^ nat (bit_length n - 1) \<le> of_int n"
    and U: "(of_int n :: rat) + 1 \<le> 2 ^ nat (bit_length n)"
    by (simp_all add: of_int_pow2_le of_int_less_pow2 del: numeral_power_le_of_int_cancel_iff)
  show ?thesis
    unfolding P1 P2 using L U n by linarith
next
  case False
  define c where "c = \<lceil>1 / q\<rceil>"
  define k where "k = bit_length (c - 1)"
  from False assms have inv: "1 < 1 / q" by simp
  have c: "1 / q \<le> of_int c" "of_int c - 1 < 1 / q"
    by (simp_all add: c_def) linarith+
  from inv c(1) have "(1::rat) < of_int c" by linarith
  then have c1: "0 < c - 1" by simp
  have e: "ilog2 q = - k"
    using False by (simp add: ilog2_def c_def k_def)
  have k1: "1 \<le> k"
    using bit_length_pos [OF c1] bit_length_ge0 [of "(c - 1) div 2"] by (simp add: k_def)
  from bit_length_bounds [OF c1]
  have L: "(2::rat) ^ nat (k - 1) \<le> of_int (c - 1)"
    and U: "(of_int (c - 1) :: rat) + 1 \<le> 2 ^ nat k"
    unfolding k_def
    by (simp_all only: of_int_pow2_le of_int_less_pow2)
  have L': "(2::rat) ^ nat (k - 1) \<le> of_int c - 1"
    using L by (simp only: of_int_diff of_int_1)
  have U': "(of_int c :: rat) - 1 + 1 \<le> 2 ^ nat k"
    using U by (simp only: of_int_diff of_int_1)
  have up: "1 / q \<le> 2 ^ nat k"
    using c(1) U' by linarith
  have lo: "2 ^ nat (k - 1) < 1 / q"
    using c(2) L' by linarith
  have P1: "pow2 (ilog2 q) = 1 / 2 ^ nat k"
    using k1 by (simp add: e pow2_def)
  have P2: "pow2 (ilog2 q + 1) = 1 / 2 ^ nat (k - 1)"
    using k1 by (simp add: e pow2_def)
  have "1 / 2 ^ nat k \<le> q"
    using up assms by (simp add: field_simps)
  moreover have "q < 1 / 2 ^ nat (k - 1)"
    using lo assms by (simp add: field_simps)
  ultimately show ?thesis unfolding P1 P2 by simp
qed

lemma ilog2_less: "0 < q \<Longrightarrow> q < pow2 j \<Longrightarrow> ilog2 q < j"
  using ilog2_bounds [of q] pow2_less_iff [of "ilog2 q" j] by linarith

lemma ilog2_ge: "0 < q \<Longrightarrow> pow2 j \<le> q \<Longrightarrow> j \<le> ilog2 q"
  using ilog2_bounds [of q] pow2_less_iff [of j "ilog2 q + 1"] by linarith

lemma round_half_even_of_int: "round_half_even (of_int n) = n"
  by (simp add: round_half_even_def)

lemma to_double_exact:
  assumes q: "q = of_int m * pow2 k" and m: "\<bar>m\<bar> < 2 ^ 53" and k: "- 1074 \<le> k"
    and bound: "\<bar>q\<bar> < 2 ^ 1024"
  shows "to_double q = Fin q"
proof (cases "q = 0")
  case True
  then show ?thesis by (simp add: to_double_def)
next
  case False
  define e where "e = max (ilog2 \<bar>q\<bar>) (- 1022)"
  define j where "j = k - (e - 52)"
  have "(of_int \<bar>m\<bar> :: rat) < of_int (2 ^ 53)"
    using m by (simp only: of_int_less_iff)
  then have "\<bar>of_int m :: rat\<bar> < pow2 53"
    by (simp add: pow2_def)
  then have "\<bar>q\<bar> < pow2 53 * pow2 k"
    using pow2_pos [of k] by (simp add: q abs_mult)
  then have "\<bar>q\<bar> < pow2 (k + 53)"
    by (simp add: pow2_add mult.commute)
  with False have "ilog2 \<bar>q\<bar> < k + 53"
    by (intro ilog2_less) simp_all
  with k have j0: "0 \<le> j"
    by (simp add: j_def e_def)
  have "pow2 k = pow2 j * pow2 (e - 52)"
    by (simp add: j_def flip: pow2_add)
  then have "q / pow2 (e - 52) = of_int m * pow2 j"
    using pow2_pos [of "e - 52"] by (simp add: q)
  also have "\<dots> = of_int (m * 2 ^ nat j)"
    using j0 by (simp add: pow2_nat)
  finally have quot: "q / pow2 (e - 52) = of_int (m * 2 ^ nat j)" .
  have r: "of_int (round_half_even (q / pow2 (e - 52))) * pow2 (e - 52) = q"
    unfolding quot round_half_even_of_int
    using quot pow2_pos [of "e - 52"] by (simp add: field_simps)
  from bound have "\<not> 2 ^ 1024 \<le> q" "\<not> q \<le> - (2 ^ 1024)"
    by linarith+
  with False r show ?thesis
    by (simp add: to_double_def Let_def flip: e_def)
qed

lemma to_double_half:
  assumes "2 * x = of_int n" and "0 \<le> x" and "x < 2 ^ 52"
  shows "to_double x = Fin x"
proof (rule to_double_exact [where m = n and k = "- 1"])
  show "x = of_int n * pow2 (- 1)"
    using assms(1) by (simp add: pow2_def)
  have "(of_int n :: rat) < 2 * 2 ^ 52" "(0::rat) \<le> of_int n"
    using assms by linarith+
  then have "(of_int n :: rat) < of_int (2 ^ 53)" "(of_int 0 :: rat) \<le> of_int n"
    by simp_all
  then have "n < 2 ^ 53" "0 \<le> n"
    by (simp_all only: of_int_less_iff of_int_le_iff)
  then show "\<bar>n\<bar> < 2 ^ 53" by simp
  show "- 1074 \<le> (- 1 :: int)" by simp
  have "(2::rat) ^ 52 \<le> 2 ^ 1024" by simp
  with assms show "\<bar>x\<bar> < 2 ^ 1024" by linarith
qed

lemma round_half_even_error: "\<bar>of_int (round_half_even x) - x\<bar> \<le> 1 / 2"
proof -
  have "of_int \<lfloor>x\<rfloor> \<le> x" "x < of_int \<lfloor>x\<rfloor> + 1" by linarith+
  then show ?thesis
    by (auto simp: round_half_even_def Let_def)
qed

lemma to_double_error:
  assumes "to_double q = Fin r"
  shows "\<bar>r - q\<bar> \<le> pow2 (max (ilog2 \<bar>q\<bar>) (- 1022) - 52) / 2"
proof (cases "q = 0")
  case True
  with assms show ?thesis
    using pow2_pos [of "max (ilog2 \<bar>q\<bar>) (- 1022) - 52"] by (simp add: to_double_def)
next
  case False
  define u where "u = pow2 (max (ilog2 \<bar>q\<bar>) (- 1022) - 52)"
  have u: "0 < u" by (simp add: u_def pow2_pos)
  from assms False have r: "r = of_int (round_half_even (q / u)) * u"
    by (simp add: to_double_def Let_def u_def split: if_splits)
  have "r - q = (of_int (round_half_even (q / u)) - q / u) * u"
    using u by (simp add: r left_diff_distrib)
  then have "\<bar>r - q\<bar> = \<bar>of_int (round_half_even (q / u)) - q / u\<bar> * u"
    using u by (simp only: abs_mult abs_of_pos)
  also have "\<dots> \<le> 1 / 2 * u"
    using u round_half_even_error [of "q / u"] by (intro mult_right_mono) simp_all
  finally show ?thesis by (simp add: u_def)
qed

lemma round_half_even_bound:
  assumes "\<bar>x\<bar> < of_int n"
  shows "\<bar>round_half_even x\<bar> \<le> n"
proof -
  have "\<bar>of_int (round_half_even x) :: rat\<bar> \<le> \<bar>x\<bar> + 1 / 2"
    using round_half_even_error [of x] by linarith
  with assms have "\<bar>of_int (round_half_even x) :: rat\<bar> < of_int n + 1 / 2"
    by linarith
  then have "(of_int \<bar>round_half_even x\<bar> :: rat) < of_int (n + 1)"
    by simp
  then have "\<bar>round_half_even x\<bar> < n + 1"
    by (simp only: of_int_less_iff)
  then show ?thesis by simp
qed

lemma to_double_idem:
  assumes "to_double q = Fin r"
  shows "to_double r = Fin r"
proof (cases "q = 0")
  case True
  with assms show ?thesis by (simp add: to_double_def)
next
  case False
  define e where "e = max (ilog2 \<bar>q\<bar>) (- 1022)"
  define u where "u = pow2 (e - 52)"
  define m where "m = round_half_even (q / u)"
  have u: "0 < u" by (simp add: u_def pow2_pos)
  from assms False have r: "r = of_int m * u" and bound: "\<bar>r\<bar> < 2 ^ 1024"
    by (simp_all add: to_double_def Let_def u_def e_def m_def split: if_splits)
  have "\<bar>q\<bar> < pow2 (ilog2 \<bar>q\<bar> + 1)"
    using ilog2_bounds [of "\<bar>q\<bar>"] False by simp
  also have "\<dots> \<le> pow2 (e + 1)"
    by (simp add: pow2_le_iff e_def)
  also have "\<dots> = 2 ^ 53 * u"
  proof -
    have "pow2 53 = 2 ^ 53" by (simp add: pow2_def)
    with pow2_add [of 53 "e - 52"] show ?thesis by (simp add: u_def add.commute)
  qed
  finally have "\<bar>q / u\<bar> < of_int (2 ^ 53)"
    using u by (simp add: field_simps)
  then have m: "\<bar>m\<bar> \<le> 2 ^ 53"
    unfolding m_def by (rule round_half_even_bound)
  have e: "- 1022 \<le> e" by (simp add: e_def)
  show ?thesis
  proof (cases "\<bar>m\<bar> < 2 ^ 53")
    case True
    show ?thesis
    proof (rule to_double_exact)
      show "r = of_int m * pow2 (e - 52)" by (simp add: r u_def)
      show "\<bar>m\<bar> < 2 ^ 53" by (rule True)
      show "- 1074 \<le> e - 52" using e by simp
      show "\<bar>r\<bar> < 2 ^ 1024" by (rule bound)
    qed
  next
    case False
    with m have "\<bar>m\<bar> = 9007199254740992" by simp
    then have "m = 9007199254740992 \<or> m = - 9007199254740992" by linarith
    then have m2: "m = 2 * (m div 2)" "\<bar>m div 2\<bar> < 2 ^ 53" by auto
    show ?thesis
    proof (rule to_double_exact)
      have "pow2 1 = 2" by (simp add: pow2_def)
      with pow2_add [of 1 "e - 52"] have "pow2 (e - 51) = 2 * u"
        by (simp add: u_def add.commute)
      moreover have "(of_int m :: rat) = 2 * of_int (m div 2)"
        using m2(1) by (metis of_int_mult of_int_numeral)
      ultimately show "r = of_int (m div 2) * pow2 (e - 51)"
        by (simp add: r)
      show "\<bar>m div 2\<bar> < 2 ^ 53" by (rule m2)
      show "- 1074 \<le> e - 51" using e by simp
      show "\<bar>r\<bar> < 2 ^ 1024" by (rule bound)
    qed
  qed
qed

section \<open>Properties of the query progress store\<close>

lemma map_unmatched:
  "i \<notin> id' ` set xs \<Longrightarrow> map (\<lambda>step. if id' step = i then f step else step) xs = xs"
  by (induction xs) auto

text \<open>
  C1, as stated, fails: after \<^verbatim>\<open>startStep("x", "loading")\<close> the call \<^verbatim>\<open>startStep("x")\<close>
  leaves the step with no detail. The object literal of \<^verbatim>\<open>startStep\<close> assigns the
  \<^verbatim>\<open>detail\<close> parameter whatever it holds, and an omitted parameter holds
  \<^verbatim>\<open>undefined\<close>.
\<close>

theorem startStep_omitted_detail_counterexample:
  "map detail (steps (startStep ''x'' (Some ''loading'') 1
      (initialize [(''x'', ''X'')] useQueryProgressStore))) = [Some ''loading''] \<and>
   map detail (steps (startStep ''x'' None 2 (startStep ''x'' (Some ''loading'') 1
      (initialize [(''x'', ''X'')] useQueryProgressStore)))) = [None]"
  by (simp add: startStep_def initialize_def useQueryProgressStore_def)

text \<open>
  C1, amended: in every state whose step list holds a step with id \<open>x\<close> (at any
  position \<open>k\<close>), \<^verbatim>\<open>startStep(x)\<close> with the detail omitted sets that step's status to
  \<open>active\<close>, records the clock reading as \<open>startedAt\<close>, clears \<open>completedAt\<close> and
  sets \<open>detail\<close> to \<^verbatim>\<open>undefined\<close>: the previous detail is cleared, not preserved.
\<close>

theorem startStep_omitted_detail_clears:
  assumes "k < length (steps state)" and "id' (steps state ! k) = x"
  shows "status (steps (startStep x None now state) ! k) = active \<and>
         startedAt (steps (startStep x None now state) ! k) = Some now \<and>
         completedAt (steps (startStep x None now state) ! k) = None \<and>
         detail (steps (startStep x None now state) ! k) = None"
  using assms by (simp add: startStep_def)

theorem startStep_omitted_detail_clears_witness:
  "(0::nat) < length (steps (startStep ''x'' (Some ''loading'') 1
      (initialize [(''x'', ''X'')] (useQueryProgressStore :: int QueryProgressState)))) \<and>
   id' (steps (startStep ''x'' (Some ''loading'') 1
      (initialize [(''x'', ''X'')] (useQueryProgressStore :: int QueryProgressState))) ! 0) = ''x'' \<and>
   status (steps (startStep ''x'' None 2 (startStep ''x'' (Some ''loading'') 1
      (initialize [(''x'', ''X'')] (useQueryProgressStore :: int QueryProgressState)))) ! 0) = active \<and>
   startedAt (steps (startStep ''x'' None 2 (startStep ''x'' (Some ''loading'') 1
      (initialize [(''x'', ''X'')] (useQueryProgressStore :: int QueryProgressState)))) ! 0) = Some 2 \<and>
   detail (steps (startStep ''x'' None 2 (startStep ''x'' (Some ''loading'') 1
      (initialize [(''x'', ''X'')] (useQueryProgressStore :: int QueryProgressState)))) ! 0) = None"
  using startStep_omitted_detail_clears [of 0 "startStep ''x'' (Some ''loading'') 1
      (initialize [(''x'', ''X'')] (useQueryProgressStore :: int QueryProgressState))" "''x''" 2]
  by (simp add: startStep_def initialize_def useQueryProgressStore_def)

text \<open>
  C2: from \<^verbatim>\<open>initialize\<close> with the steps \<open>a\<close>, \<open>b\<close>, \<open>c\<close> (any labels, any earlier
  state), the events \<open>active(a)\<close>, \<open>completed(a)\<close>, \<open>active(b)\<close>,
  \<open>error(b, "timeout")\<close>, \<open>estimate(30)\<close>, handled in this order at any clock readings,
  leave \<open>a\<close> completed, \<open>b\<close> in error with detail \<open>"timeout"\<close>, \<open>c\<close> idle and the
  estimate at 30 seconds.
\<close>

theorem end_to_end_scenario:
  "let final = handleAll
      [(t1, StepEvent ''a'' ''active'' None None),
       (t2, StepEvent ''a'' ''completed'' None None),
       (t3, StepEvent ''b'' ''active'' None None),
       (t4, StepEvent ''b'' ''error'' (Some ''timeout'') None),
       (t5, EstimateEvent (Fin 30))]
      (initialize [(''a'', la), (''b'', lb), (''c'', lc)] state)
   in map id' (steps final) = [''a'', ''b'', ''c''] \<and>
      map status (steps final) = [completed, error, idle] \<and>
      detail (steps final ! 1) = Some ''timeout'' \<and>
      estimatedSeconds final = Some (Fin 30)"
  by (simp add: handleProgressEvent_def initialize_def startStep_def completeStep_def
      failStep_def setEstimatedTime_def)

text \<open>
  C3: when no step of the current list has the id \<open>x\<close>, each of \<^verbatim>\<open>startStep\<close>,
  \<^verbatim>\<open>completeStep\<close> and \<^verbatim>\<open>failStep\<close> returns the state it was given, whatever its
  other arguments. None of the three has a failing path: each maps over the step
  list, so each is a total function of the state.
\<close>

theorem unmatched_id_is_noop:
  assumes "x \<notin> id' ` set (steps state)"
  shows "startStep x d now state = state \<and> completeStep x md now state = state \<and>
         failStep x msg now state = state"
  using assms by (simp add: startStep_def completeStep_def failStep_def map_unmatched)

theorem unmatched_id_is_noop_witness:
  "''z'' \<notin> id' ` set (steps (initialize [(''a'', ''A'')] (useQueryProgressStore :: int QueryProgressState))) \<and>
   startStep ''z'' (Some ''d'') 5 (initialize [(''a'', ''A'')] (useQueryProgressStore :: int QueryProgressState))
     = initialize [(''a'', ''A'')] useQueryProgressStore \<and>
   completeStep ''z'' (Some [''k'' \<mapsto> 1]) 5 (initialize [(''a'', ''A'')] (useQueryProgressStore :: int QueryProgressState))
     = initialize [(''a'', ''A'')] useQueryProgressStore \<and>
   failStep ''z'' (Some ''m'') 5 (initialize [(''a'', ''A'')] (useQueryProgressStore :: int QueryProgressState))
     = initialize [(''a'', ''A'')] useQueryProgressStore"
  using unmatched_id_is_noop [of "''z''"
      "initialize [(''a'', ''A'')] (useQueryProgressStore :: int QueryProgressState)"
      "Some ''d''" 5 "Some [''k'' \<mapsto> 1]" "Some ''m''"]
  by (simp add: initialize_def useQueryProgressStore_def)

text \<open>
  C4: two completions of the step with id \<open>x\<close> (at any position \<open>k\<close>) leave it with the
  metadata it had, overlaid with the first bag and then with the second: a key of a
  later bag overwrites, every other key is kept. In a run just initialized, where no
  step has metadata yet, \<^verbatim>\<open>{a: 1}\<close> followed by \<^verbatim>\<open>{b: 2}\<close> gives \<^verbatim>\<open>{a: 1, b: 2}\<close>,
  whatever the two values are.
\<close>

theorem completeStep_merges_metadata:
  "(k < length (steps state) \<and> id' (steps state ! k) = x \<longrightarrow>
      metadata (steps (completeStep x (Some m2) t2 (completeStep x (Some m1) t1 state)) ! k)
        = Some (spread (metadata (steps state ! k)) ++ m1 ++ m2)) \<and>
   (k < length new_steps \<and> fst (new_steps ! k) = x \<longrightarrow>
      metadata (steps (completeStep x (Some [''b'' \<mapsto> b]) t2
          (completeStep x (Some [''a'' \<mapsto> a]) t1 (initialize new_steps state))) ! k)
        = Some [''a'' \<mapsto> a, ''b'' \<mapsto> b])"
  by (simp add: completeStep_def initialize_def spread_def)

theorem completeStep_merges_metadata_witness:
  "(1::nat) < length [(''w'', ''W''), (''x'', ''X'')] \<and>
   fst ([(''w'', ''W''), (''x'', ''X'')] ! 1) = ''x'' \<and>
   metadata (steps (completeStep ''x'' (Some [''b'' \<mapsto> 2]) 8
      (completeStep ''x'' (Some [''a'' \<mapsto> 1]) 7
        (initialize [(''w'', ''W''), (''x'', ''X'')] (useQueryProgressStore :: int QueryProgressState)))) ! 1)
     = Some [''a'' \<mapsto> 1, ''b'' \<mapsto> 2]"
  using completeStep_merges_metadata [of 1 "useQueryProgressStore :: int QueryProgressState"
      "''x''" "[''b'' \<mapsto> 2]" 8 "[''a'' \<mapsto> 1]" 7 "[(''w'', ''W''), (''x'', ''X'')]" 2 1]
  by simp

section \<open>Properties of the event consumer\<close>

text \<open>
  C10: a step event with status \<open>error\<close> and no detail is dispatched as
  \<^verbatim>\<open>failStep(stepId, "Step failed")\<close>, so every step with that id ends with the detail
  \<open>"Step failed"\<close>, whatever detail it had; and no event at all is dispatched as a
  \<^verbatim>\<open>failStep\<close> without a message, so the consumer never reaches the branch of
  \<^verbatim>\<open>failStep\<close> that keeps the previous detail.
\<close>

theorem error_event_without_detail:
  "dispatch (StepEvent x ''error'' None md) = FailStep x (Some ''Step failed'') \<and>
   handleProgressEvent now (StepEvent x ''error'' None md) state
     = failStep x (Some ''Step failed'') now state \<and>
   (\<forall>k < length (steps state). id' (steps state ! k) = x \<longrightarrow>
      detail (steps (handleProgressEvent now (StepEvent x ''error'' None md) state) ! k)
        = Some ''Step failed'') \<and>
   (\<forall>payload i. dispatch payload \<noteq> (FailStep i None :: 'v StoreCall))"
proof -
  have "dispatch payload \<noteq> FailStep i None" for payload :: "'v ProgressEventPayload" and i
    by (cases payload) simp_all
  then show ?thesis
    by (simp add: handleProgressEvent_def failStep_def)
qed

theorem error_event_without_detail_witness:
  "map detail (steps (handleProgressEvent 9 (StepEvent ''x'' ''error'' None None)
      (startStep ''x'' (Some ''loading'') 1
        (initialize [(''x'', ''X'')] (useQueryProgressStore :: int QueryProgressState)))))
     = [Some ''Step failed'']"
  using error_event_without_detail [of "''x''" None 9
      "startStep ''x'' (Some ''loading'') 1
        (initialize [(''x'', ''X'')] (useQueryProgressStore :: int QueryProgressState))"]
  by (simp add: startStep_def initialize_def useQueryProgressStore_def failStep_def
      handleProgressEvent_def)

section \<open>Properties of the query configuration store\<close>

text \<open>
  C8: toggling the same source id twice gives a source list with the same members as
  before, in every state and for every id.
\<close>

theorem toggleSource_twice_members:
  "set (sources (toggleSource x (toggleSource x state))) = set (sources state)"
  by (auto simp: toggleSource_def)

text \<open>
  C9: \<^verbatim>\<open>setOptions\<close> keeps every option the partial object does not name, gives every
  option it names the new value, and leaves the rest of the state alone. A partial
  object that names \<open>maxResults\<close> only keeps \<open>dateFrom\<close>.
\<close>

theorem setOptions_shallow_merge:
  "(searchDepth_opt opts = None \<longrightarrow>
      searchDepth (options (setOptions opts state)) = searchDepth (options state)) \<and>
   (maxResults_opt opts = None \<longrightarrow>
      maxResults (options (setOptions opts state)) = maxResults (options state)) \<and>
   (dateFrom_opt opts = None \<longrightarrow>
      dateFrom (options (setOptions opts state)) = dateFrom (options state)) \<and>
   (dateTo_opt opts = None \<longrightarrow>
      dateTo (options (setOptions opts state)) = dateTo (options state)) \<and>
   (openAccessOnly_opt opts = None \<longrightarrow>
      openAccessOnly (options (setOptions opts state)) = openAccessOnly (options state)) \<and>
   (\<forall>v. searchDepth_opt opts = Some v \<longrightarrow> searchDepth (options (setOptions opts state)) = v) \<and>
   (\<forall>v. maxResults_opt opts = Some v \<longrightarrow> maxResults (options (setOptions opts state)) = v) \<and>
   (\<forall>v. dateFrom_opt opts = Some v \<longrightarrow> dateFrom (options (setOptions opts state)) = v) \<and>
   (\<forall>v. dateTo_opt opts = Some v \<longrightarrow> dateTo (options (setOptions opts state)) = v) \<and>
   (\<forall>v. openAccessOnly_opt opts = Some v \<longrightarrow> openAccessOnly (options (setOptions opts state)) = v) \<and>
   query (setOptions opts state) = query state \<and>
   sources (setOptions opts state) = sources state \<and>
   llms (setOptions opts state) = llms state"
  by (simp add: setOptions_def override_def)

theorem setOptions_shallow_merge_witness:
  "dateFrom (options (setOptions
      \<lparr>searchDepth_opt = None, maxResults_opt = Some (Fin 50), dateFrom_opt = None,
       dateTo_opt = None, openAccessOnly_opt = None\<rparr>
      (DEFAULT_STATE\<lparr>options := (options DEFAULT_STATE)\<lparr>dateFrom := Some ''2020-01-01''\<rparr>\<rparr>)))
     = Some ''2020-01-01'' \<and>
   maxResults (options (setOptions
      \<lparr>searchDepth_opt = None, maxResults_opt = Some (Fin 50), dateFrom_opt = None,
       dateTo_opt = None, openAccessOnly_opt = None\<rparr>
      (DEFAULT_STATE\<lparr>options := (options DEFAULT_STATE)\<lparr>dateFrom := Some ''2020-01-01''\<rparr>\<rparr>)))
     = Fin 50"
  using setOptions_shallow_merge [of
      "\<lparr>searchDepth_opt = None, maxResults_opt = Some (Fin 50), dateFrom_opt = None,
        dateTo_opt = None, openAccessOnly_opt = None\<rparr>"
      "DEFAULT_STATE\<lparr>options := (options DEFAULT_STATE)\<lparr>dateFrom := Some ''2020-01-01''\<rparr>\<rparr>"]
  by (simp add: DEFAULT_STATE_def)

section \<open>Properties of the estimator\<close>

lemmas eval_cost = calculateQueryCost_def totalCost_def SOURCE_BASE_COST_def LLM_BASE_COST_def
  MINIMUM_COST_def toFixed2_def get_property_def Object_prototype_def

lemma get_property_own:
  "key \<notin> set Object_prototype \<Longrightarrow>
   (case get_property table key of Some v \<Rightarrow> v | None \<Rightarrow> Num dflt) = Num (base_cost table dflt key)"
  by (simp add: get_property_def base_cost_def split: option.split)

lemma foldl_base_cost:
  "set keys \<inter> set Object_prototype = {} \<Longrightarrow>
   foldl (\<lambda>total key. js_add total (case get_property table key of Some v \<Rightarrow> v | None \<Rightarrow> Num dflt))
       (Num z) keys
     = Num (foldl fadd z (map (base_cost table dflt) keys))"
proof (induction keys arbitrary: z)
  case Nil
  then show ?case by simp
next
  case (Cons key keys)
  then have "key \<notin> set Object_prototype" "set keys \<inter> set Object_prototype = {}"
    by auto
  with Cons.IH show ?case
    by (simp add: get_property_own)
qed

lemma DEPTH_MULTIPLIER_cases:
  "DEPTH_MULTIPLIER depth =
     (case depth of quick \<Rightarrow> to_double 0.5 | standard \<Rightarrow> to_double 1 | deep \<Rightarrow> to_double 2.6)"
  by (cases depth) simp_all

lemma Math_max_half:
  assumes "Math_max (Fin (1 / 2)) t = Fin v"
  shows "1 / 2 \<le> v"
  using assms by (cases t) auto

lemma toFixed2_nearest:
  assumes "0 \<le> v" and "v < 10 ^ 21"
  shows "\<exists>n. toFixed2 (Fin v) = Digits (of_int n / 100) \<and>
            v - 1 / 200 < of_int n / 100 \<and> of_int n / 100 \<le> v + 1 / 200"
proof (cases "v * 100 - of_int \<lfloor>v * 100\<rfloor> < 1 / 2")
  case True
  have "toFixed2 (Fin v) = Digits (of_int \<lfloor>v * 100\<rfloor> / 100)"
    using assms True by (cases "v = 0") (simp_all add: toFixed2_def Let_def)
  moreover have "v - 1 / 200 < of_int \<lfloor>v * 100\<rfloor> / 100"
    using True by linarith
  moreover have "of_int \<lfloor>v * 100\<rfloor> / 100 \<le> v + 1 / 200"
    using of_int_floor_le [of "v * 100"] by linarith
  ultimately show ?thesis by blast
next
  case False
  have "v \<noteq> 0" using False by auto
  then have "toFixed2 (Fin v) = Digits (of_int (\<lfloor>v * 100\<rfloor> + 1) / 100)"
    using assms False by (simp add: toFixed2_def Let_def)
  moreover have "v - 1 / 200 < of_int (\<lfloor>v * 100\<rfloor> + 1) / 100"
    using floor_correct [of "v * 100"] by simp
  moreover have "of_int (\<lfloor>v * 100\<rfloor> + 1) / 100 \<le> v + 1 / 200"
    using False by simp
  ultimately show ?thesis by blast
qed

text \<open>
  For identifiers that do not name a member of \<^verbatim>\<open>Object.prototype\<close>, the cost is the
  formula of the specification (rounded as \<^verbatim>\<open>toFixed(2)\<close> rounds), and the two
  examples of the specification come out as 2.05 and 0.50.
\<close>

lemma calculateQueryCost_spec:
  assumes "set (cfg_sources config) \<inter> set Object_prototype = {}"
    and "set (cfg_llms config) \<inter> set Object_prototype = {}"
  shows "calculateQueryCost config =
     parseFloat (toFixed2 (spec_cost (cfg_sources config) (cfg_llms config) (cfg_depth config)
       (case cfg_maxResults config of None \<Rightarrow> to_double 20 | Some m \<Rightarrow> m)))"
  using assms
  by (simp add: calculateQueryCost_def totalCost_def spec_cost_def number_sum_def
      foldl_base_cost DEPTH_MULTIPLIER_cases MINIMUM_COST_def Let_def)

lemma calculateQueryCost_examples:
  "calculateQueryCost \<lparr>cfg_sources = [''openalex'', ''pubmed''], cfg_llms = [''claude''],
      cfg_depth = standard, cfg_maxResults = Some (to_double 20)\<rparr> = to_double 2.05 \<and>
   calculateQueryCost \<lparr>cfg_sources = [], cfg_llms = [],
      cfg_depth = quick, cfg_maxResults = Some (to_double 20)\<rparr> = to_double 0.50"
  by (simp add: eval_cost eval_double)

text \<open>
  C5, the code at a failing input: for the source list \<^verbatim>\<open>["constructor"]\<close>, no model,
  depth \<open>standard\<close> and 20 results, the claim's formula gives 0.50 (the default 0.1
  for a source the table does not list, raised to the floor of 0.5), but
  \<^verbatim>\<open>calculateQueryCost\<close> returns NaN: the lookup finds the inherited
  \<^verbatim>\<open>constructor\<close> function, \<^verbatim>\<open>??\<close> keeps it, and the sum becomes a string.
\<close>

theorem calculateQueryCost_inherited_key:
  "calculateQueryCost \<lparr>cfg_sources = [''constructor''], cfg_llms = [],
      cfg_depth = standard, cfg_maxResults = Some (to_double 20)\<rparr> = NaN \<and>
   parseFloat (toFixed2 (spec_cost [''constructor''] [] standard (to_double 20))) = to_double 0.50"
proof (intro conjI)
  show "calculateQueryCost \<lparr>cfg_sources = [''constructor''], cfg_llms = [],
      cfg_depth = standard, cfg_maxResults = Some (to_double 20)\<rparr> = NaN"
    by (simp add: eval_cost eval_double)
  show "parseFloat (toFixed2 (spec_cost [''constructor''] [] standard (to_double 20))) = to_double 0.50"
    by (simp add: spec_cost_def number_sum_def base_cost_def SOURCE_BASE_COST_def toFixed2_def eval_double)
qed

text \<open>
  C6, as stated, fails: for the source \<open>openalex\<close>, the model \<open>claude\<close>, depth
  \<open>quick\<close> and 20 results the cost in decimal arithmetic is
  \<open>(0.15 + 1.8) * 0.5 * 1 = 0.975\<close>, which half-up rounding at the cent boundary
  takes to 0.98; \<^verbatim>\<open>calculateQueryCost\<close> returns 0.97, because the double it
  computes lies just below 0.975.
\<close>

theorem half_up_rounding_counterexample:
  "calculateQueryCost \<lparr>cfg_sources = [''openalex''], cfg_llms = [''claude''],
      cfg_depth = quick, cfg_maxResults = Some (to_double 20)\<rparr> = to_double 0.97 \<and>
   decimal_cost [0.15] [1.8] 0.5 1 = 0.98 \<and>
   to_double 0.97 \<noteq> to_double 0.98"
proof (intro conjI)
  show "calculateQueryCost \<lparr>cfg_sources = [''openalex''], cfg_llms = [''claude''],
      cfg_depth = quick, cfg_maxResults = Some (to_double 20)\<rparr> = to_double 0.97"
    by (simp add: eval_cost eval_double)
  show "decimal_cost [0.15] [1.8] 0.5 1 = 0.98"
    by (simp add: decimal_cost_def half_up_cents_def)
  show "to_double 0.97 \<noteq> to_double 0.98"
    by (simp add: eval_double)
qed

text \<open>
  C6, amended: whenever the floored total the code computes is a finite double \<open>v\<close>
  below \<open>10\<^sup>2\<^sup>1\<close>, the result is the double nearest to \<open>n / 100\<close>, where
  \<open>n / 100\<close> is the two-decimal value nearest to \<open>v\<close>, a tie going up:
  \<open>v - 0.005 < n / 100 \<le> v + 0.005\<close>. The rounding is half-up on the computed
  double, not on the decimal value of the formula.
\<close>

theorem calculateQueryCost_rounds_computed_double:
  assumes "Math_max MINIMUM_COST (totalCost config) = Fin v" and "v < 10 ^ 21"
  shows "\<exists>n. calculateQueryCost config = to_double (of_int n / 100) \<and>
             v - 1 / 200 < of_int n / 100 \<and> of_int n / 100 \<le> v + 1 / 200"
proof -
  from assms(1) have "Math_max (Fin (1 / 2)) (totalCost config) = Fin v"
    by (simp add: MINIMUM_COST_def lit_half)
  then have "1 / 2 \<le> v"
    by (rule Math_max_half)
  then have "0 \<le> v" by simp
  from toFixed2_nearest [OF this assms(2)] obtain n where
    "toFixed2 (Fin v) = Digits (of_int n / 100)"
    "v - 1 / 200 < of_int n / 100" "of_int n / 100 \<le> v + 1 / 200"
    by blast
  then show ?thesis
    using assms(1) by (auto simp: calculateQueryCost_def)
qed

theorem calculateQueryCost_rounds_computed_double_witness:
  "Math_max MINIMUM_COST (totalCost \<lparr>cfg_sources = [''openalex''], cfg_llms = [''claude''],
      cfg_depth = quick, cfg_maxResults = Some (to_double 20)\<rparr>)
     = Fin (8782019273372467 / 9007199254740992) \<and>
   (\<exists>n. calculateQueryCost \<lparr>cfg_sources = [''openalex''], cfg_llms = [''claude''],
      cfg_depth = quick, cfg_maxResults = Some (to_double 20)\<rparr> = to_double (of_int n / 100) \<and>
      8782019273372467 / 9007199254740992 - 1 / 200 < (of_int n / 100 :: rat) \<and>
      (of_int n / 100 :: rat) \<le> 8782019273372467 / 9007199254740992 + 1 / 200)"
proof -
  have h: "Math_max MINIMUM_COST (totalCost \<lparr>cfg_sources = [''openalex''], cfg_llms = [''claude''],
      cfg_depth = quick, cfg_maxResults = Some (to_double 20)\<rparr>)
     = Fin (8782019273372467 / 9007199254740992)"
    by (simp add: eval_cost eval_double)
  have b: "(8782019273372467 / 9007199254740992 :: rat) < 10 ^ 21"
    by simp
  from calculateQueryCost_rounds_computed_double [OF h b] h show ?thesis
    by blast
qed

lemma Math_min_Fin: "Math_min (Fin a) (Fin b) = Fin (min a b)"
  by simp

lemma duration_for_counts:
  assumes s: "s < 2 ^ 32" and l: "l < 2 ^ 32"
  shows "estimateQueryDuration depth (Fin (of_nat s)) (Fin (of_nat l))
           = Fin (of_int (spec_duration depth s l))"
proof -
  define A :: rat where "A = min 12 (of_nat s * 2.5)"
  define B :: rat where "B = min 10 (of_nat l * 3)"
  define b :: rat where "b = base_seconds depth"
  have "(of_nat s :: rat) < of_nat (2 ^ 32)" "(of_nat l :: rat) < of_nat (2 ^ 32)"
    using s l by (simp_all only: of_nat_less_iff)
  then have sr: "(of_nat s :: rat) < 4294967296" and lr: "(of_nat l :: rat) < 4294967296"
    by simp_all
  have "to_double (of_nat s * (5 / 2)) = Fin (of_nat s * (5 / 2))"
  proof (rule to_double_half)
    show "2 * (of_nat s * (5 / 2)) = (of_int (5 * int s) :: rat)" by simp
    show "(0::rat) \<le> of_nat s * (5 / 2)" by simp
    show "(of_nat s :: rat) * (5 / 2) < 2 ^ 52" using sr by simp
  qed
  then have sa: "Math_min (to_double 12) (fmul (Fin (of_nat s)) (to_double 2.5)) = Fin A"
    by (simp add: lit_12 lit_2_5 A_def)
  have "to_double (of_nat l * 3) = Fin (of_nat l * 3)"
  proof (rule to_double_half)
    show "2 * (of_nat l * 3) = (of_int (6 * int l) :: rat)" by simp
    show "(0::rat) \<le> of_nat l * 3" by simp
    show "(of_nat l :: rat) * 3 < 2 ^ 52" using lr by simp
  qed
  then have la: "Math_min (to_double 10) (fmul (Fin (of_nat l)) (to_double 3)) = Fin B"
    by (simp add: lit_10 lit_3 B_def)
  obtain nb :: int where nb: "2 * b = of_int nb" "0 \<le> b" "b \<le> 45"
    by (cases depth) (simp_all add: b_def)
  obtain na :: int where na: "2 * A = of_int na" "0 \<le> A" "A \<le> 12"
  proof (cases "12 \<le> (of_nat s :: rat) * 2.5")
    case True
    then have "2 * A = of_int 24" "0 \<le> A" "A \<le> 12" by (simp_all add: A_def)
    then show ?thesis by (rule that)
  next
    case False
    then have "2 * A = of_int (5 * int s)" "0 \<le> A" "A \<le> 12" by (simp_all add: A_def)
    then show ?thesis by (rule that)
  qed
  obtain nl :: int where nl: "2 * B = of_int nl" "0 \<le> B" "B \<le> 10"
  proof (cases "10 \<le> (of_nat l :: rat) * 3")
    case True
    then have "2 * B = of_int 20" "0 \<le> B" "B \<le> 10" by (simp_all add: B_def)
    then show ?thesis by (rule that)
  next
    case False
    then have "2 * B = of_int (6 * int l)" "0 \<le> B" "B \<le> 10" by (simp_all add: B_def)
    then show ?thesis by (rule that)
  qed
  have base: "(if depth = quick then to_double 8
      else if depth = standard then to_double 18 else to_double 45) = Fin b"
    by (cases depth) (simp_all add: b_def lit_8 lit_18 lit_45)
  have "to_double (b + A) = Fin (b + A)"
  proof (rule to_double_half)
    show "2 * (b + A) = of_int (nb + na)" using nb na by simp
    show "0 \<le> b + A" using nb na by simp
    show "b + A < 2 ^ 52" using nb na by simp
  qed
  moreover have "to_double (b + A + B) = Fin (b + A + B)"
  proof (rule to_double_half)
    show "2 * (b + A + B) = of_int (nb + na + nl)" using nb na nl by simp
    show "0 \<le> b + A + B" using nb na nl by simp
    show "b + A + B < 2 ^ 52" using nb na nl by simp
  qed
  ultimately have "estimateQueryDuration depth (Fin (of_nat s)) (Fin (of_nat l))
      = Fin (of_int \<lfloor>b + A + B + 1 / 2\<rfloor>)"
    unfolding estimateQueryDuration_def Let_def base sa la by simp
  then show ?thesis
    by (simp add: spec_duration_def A_def B_def b_def)
qed

text \<open>
  C7: \<^verbatim>\<open>estimateQueryDuration\<close> is \<open>round(base + min(12, sourcesCount * 2.5) +
  min(10, llmCount * 3))\<close> with base 8, 18 or 45 for \<open>quick\<close>, \<open>standard\<close> or
  \<open>deep\<close>, in the arithmetic of doubles for all numbers; for counts below \<open>2\<^sup>3\<^sup>2\<close>
  (every array length) no operation rounds, and the result is that formula in exact
  arithmetic, a half going up; and \<open>estimateQueryDuration("deep", 3, 2) = 59\<close>.
\<close>

theorem estimateQueryDuration_formula:
  "estimateQueryDuration depth sourcesCount llmCount =
     Math_round (fadd (fadd (to_double (base_seconds depth))
                            (Math_min (to_double 12) (fmul sourcesCount (to_double 2.5))))
                      (Math_min (to_double 10) (fmul llmCount (to_double 3)))) \<and>
   (s < 2 ^ 32 \<and> l < 2 ^ 32 \<longrightarrow>
      estimateQueryDuration depth (Fin (of_nat s)) (Fin (of_nat l))
        = Fin (of_int (spec_duration depth s l))) \<and>
   estimateQueryDuration deep (to_double 3) (to_double 2) = to_double 59"
proof (intro conjI impI)
  show "estimateQueryDuration depth sourcesCount llmCount =
     Math_round (fadd (fadd (to_double (base_seconds depth))
                            (Math_min (to_double 12) (fmul sourcesCount (to_double 2.5))))
                      (Math_min (to_double 10) (fmul llmCount (to_double 3))))"
    by (cases depth) (simp_all add: estimateQueryDuration_def)
  show "estimateQueryDuration depth (Fin (of_nat s)) (Fin (of_nat l))
        = Fin (of_int (spec_duration depth s l))" if "s < 2 ^ 32 \<and> l < 2 ^ 32"
    using that by (simp add: duration_for_counts)
  show "estimateQueryDuration deep (to_double 3) (to_double 2) = to_double 59"
    by (simp add: estimateQueryDuration_def eval_double)
qed

theorem estimateQueryDuration_formula_witness:
  "(3::nat) < 2 ^ 32 \<and> (2::nat) < 2 ^ 32 \<and>
   estimateQueryDuration deep (Fin (of_nat 3)) (Fin (of_nat 2)) = Fin (of_int (spec_duration deep 3 2)) \<and>
   spec_duration deep 3 2 = 59"
  using estimateQueryDuration_formula [of deep NaN NaN 3 2]
  by (simp add: spec_duration_def)

end
